theory Spec2Isabelle
  imports Complex_Main
begin

section \<open>JavaScript values\<close>

text \<open>
  The payload of a frame is whatever \<^verbatim>\<open>JSON.parse\<close> returns: null, a boolean, a number,
  a string, an array or an object. An object is the list of its own properties. Numbers
  are kept as rationals: the program only ever tests a number for truthiness (non-zero)
  or copies it.
\<close>

datatype jsval =
    JNull
  | JBool bool
  | JNum rat
  | JStr string
  | JArr "jsval list"
  | JObj "(string \<times> jsval) list"

text \<open>Thrown values are error objects; the program reads only their \<^verbatim>\<open>message\<close>.\<close>

datatype error = Error string | TypeError string | SyntaxError string

fun message_of :: "error \<Rightarrow> string" where
  "message_of (Error m) = m"
| "message_of (TypeError m) = m"
| "message_of (SyntaxError m) = m"

text \<open>
  \<^verbatim>\<open>data.f\<close> for one of the payload field names the program reads. Reading a property of
  null throws; an object answers with its own property or \<^verbatim>\<open>undefined\<close> (\<open>None\<close>);
  booleans, numbers, strings and arrays have none of these field names.
\<close>

fun field :: "jsval \<Rightarrow> string \<Rightarrow> jsval option" where
  "field (JObj kvs) f = map_of kvs f"
| "field _ f = None"

definition null_read :: error where
  "null_read = TypeError ''Cannot read properties of null''"

text \<open>JavaScript truthiness; \<^verbatim>\<open>undefined\<close> is falsy.\<close>

fun truthy :: "jsval \<Rightarrow> bool" where
  "truthy JNull = False"
| "truthy (JBool b) = b"
| "truthy (JNum n) = (n \<noteq> 0)"
| "truthy (JStr s) = (s \<noteq> [])"
| "truthy (JArr _) = True"
| "truthy (JObj _) = True"

fun truthy_opt :: "jsval option \<Rightarrow> bool" where
  "truthy_opt None = False"
| "truthy_opt (Some v) = truthy v"

section \<open>Strings\<close>

text \<open>
  Strings are lists of 8-bit code units. \<^verbatim>\<open>trim\<close> strips white space at both ends; in
  this range the white space characters are tab, line feed, vertical tab, form feed,
  carriage return, space and the no-break space.
\<close>

definition is_space :: "char \<Rightarrow> bool" where
  "is_space c = (c \<in> set [CHR 0x09, CHR 0x0A, CHR 0x0B, CHR 0x0C, CHR 0x0D, CHR 0x20, CHR 0xA0])"

definition trim :: "string \<Rightarrow> string" where
  "trim s = rev (dropWhile is_space (rev (dropWhile is_space s)))"

definition startsWith :: "string \<Rightarrow> string \<Rightarrow> bool" where
  "startsWith s p = (take (length p) s = p)"

text \<open>\<^verbatim>\<open>s.split('\n')\<close>: never empty, the last segment is what follows the last line feed.\<close>

fun split_nl :: "string \<Rightarrow> string list" where
  "split_nl [] = [[]]"
| "split_nl (c # cs) =
     (if c = CHR 0x0A then [] # split_nl cs
      else (case split_nl cs of [] \<Rightarrow> [[c]] | l # ls \<Rightarrow> (c # l) # ls))"

section \<open>The event frame parser of \<^verbatim>\<open>streamAgentResponse\<close>\<close>

datatype sse_event = SSEEvent (event: string) (data: jsval)

text \<open>
  \<^verbatim>\<open>JSON.parse\<close> belongs to the platform and is a parameter of the model: \<open>None\<close> stands
  for the SyntaxError it throws.
\<close>

type_synonym json_parse = "string \<Rightarrow> jsval option"

text \<open>The fallback inference, lines 218 to 230, for a payload that is not null.\<close>

definition infer_event_type :: "jsval \<Rightarrow> string" where
  "infer_event_type d =
     (if field d ''finalText'' \<noteq> None then ''done''
      else if truthy_opt (field d ''message'') \<and> \<not> truthy_opt (field d ''textDelta'') then ''error''
      else if field d ''sql'' \<noteq> None \<and> field d ''textDelta'' = None then ''sql''
      else if truthy_opt (field d ''name'') \<and> truthy_opt (field d ''status'') then ''tool''
      else if field d ''usedChars'' \<noteq> None then ''context''
      else if truthy_opt (field d ''newChatId'') then ''chat_rollover''
      else ''delta'')"

text \<open>
  Lines 215 to 231. \<^verbatim>\<open>currentEvent\<close> is a string or null, and the empty string is falsy
  like null. With a truthy label no property of the payload is read; without one
  the first read, \<^verbatim>\<open>data.finalText\<close>, throws when the payload is null.
\<close>

definition event_type :: "string option \<Rightarrow> jsval \<Rightarrow> error + string" where
  "event_type currentEvent d =
     (case currentEvent of
        Some l \<Rightarrow> if l \<noteq> [] then Inr l
                  else if d = JNull then Inl null_read else Inr (infer_event_type d)
      | None \<Rightarrow> if d = JNull then Inl null_read else Inr (infer_event_type d))"

text \<open>
  One iteration of the \<^verbatim>\<open>for (const line of lines)\<close> loop: the events it yields and the
  value of \<^verbatim>\<open>currentEvent\<close> afterwards. The \<^verbatim>\<open>catch\<close> of lines 235 to 237 only logs, so a
  frame that fails to parse, or whose inference throws, leaves \<^verbatim>\<open>currentEvent\<close> as it was.
\<close>

definition process_line :: "json_parse \<Rightarrow> string option \<Rightarrow> string \<Rightarrow> sse_event list \<times> string option" where
  "process_line parse currentEvent line =
     (if startsWith line ''event: '' then ([], Some (trim (drop 7 line)))
      else if startsWith line ''data: '' then
        (let dataStr = trim (drop 6 line) in
         if dataStr = [] then ([], currentEvent)
         else (case parse dataStr of
                 None \<Rightarrow> ([], currentEvent)
               | Some d \<Rightarrow>
                   (case event_type currentEvent d of
                      Inl e \<Rightarrow> ([], currentEvent)
                    | Inr eventType \<Rightarrow> ([SSEEvent eventType d], None))))
      else ([], currentEvent))"

text \<open>The value of \<^verbatim>\<open>currentEvent\<close> after the line loop has gone through some lines.\<close>

fun label_after :: "json_parse \<Rightarrow> string option \<Rightarrow> string list \<Rightarrow> string option" where
  "label_after parse currentEvent [] = currentEvent"
| "label_after parse currentEvent (line # lines) =
     label_after parse (snd (process_line parse currentEvent line)) lines"

fun process_lines :: "json_parse \<Rightarrow> string option \<Rightarrow> string list \<Rightarrow> sse_event list" where
  "process_lines parse currentEvent [] = []"
| "process_lines parse currentEvent (line # lines) =
     (case process_line parse currentEvent line of
        (evs, currentEvent') \<Rightarrow> evs @ process_lines parse currentEvent' lines)"

text \<open>
  The reader: the results of the successive \<^verbatim>\<open>reader.read()\<close> calls before it reports
  \<^verbatim>\<open>done\<close>, each a decoded chunk of text or a rejection. The incremental decoder is the
  platform's; chunks are modelled after decoding.
\<close>

datatype read_result = Value string | ReadFailed error

datatype completion = Returned | Threw error

text \<open>
  The \<^verbatim>\<open>while (true)\<close> loop, lines 191 to 240, run to its end: every event it yields and
  how it leaves the \<^verbatim>\<open>try\<close> block. \<^verbatim>\<open>currentEvent\<close> is declared inside the loop body, so
  each chunk starts with no label.
\<close>

fun read_loop :: "json_parse \<Rightarrow> string \<Rightarrow> read_result list \<Rightarrow> sse_event list \<times> completion" where
  "read_loop parse buffer [] = ([], Returned)"
| "read_loop parse buffer (ReadFailed e # rs) = ([], Threw e)"
| "read_loop parse buffer (Value v # rs) =
     (let lines = split_nl (buffer @ v);
          buffer' = last lines;
          evs = process_lines parse None (butlast lines)
      in (case read_loop parse buffer' rs of (evs', c) \<Rightarrow> (evs @ evs', c)))"

text \<open>The lines handed to the line loop, chunk by chunk, and the buffer left at the end.\<close>

fun chunk_lines :: "string \<Rightarrow> string list \<Rightarrow> string list list" where
  "chunk_lines buffer [] = []"
| "chunk_lines buffer (v # vs) =
     (let lines = split_nl (buffer @ v) in butlast lines # chunk_lines (last lines) vs)"

fun residual :: "string \<Rightarrow> string list \<Rightarrow> string" where
  "residual buffer [] = buffer"
| "residual buffer (v # vs) = residual (last (split_nl (buffer @ v))) vs"

definition parse_stream :: "json_parse \<Rightarrow> string list \<Rightarrow> sse_event list" where
  "parse_stream parse chunks = fst (read_loop parse [] (map Value chunks))"

text \<open>
  The precedence as the specification words it, every test being the presence of a
  field. It is compared with \<open>infer_event_type\<close> below.
\<close>

definition spec_precedence :: "jsval \<Rightarrow> string" where
  "spec_precedence d =
     (if field d ''finalText'' \<noteq> None then ''done''
      else if field d ''message'' \<noteq> None \<and> field d ''textDelta'' = None then ''error''
      else if field d ''sql'' \<noteq> None \<and> field d ''textDelta'' = None then ''sql''
      else if field d ''name'' \<noteq> None \<and> field d ''status'' \<noteq> None then ''tool''
      else if field d ''usedChars'' \<noteq> None then ''context''
      else if field d ''newChatId'' \<noteq> None then ''chat_rollover''
      else ''delta'')"

text \<open>
  \<^verbatim>\<open>JSON.parse\<close> on the payload texts of the examples below; every other text is
  rejected.
\<close>

definition parse_table :: json_parse where
  \<open>parse_table = map_of
     [(''{"finalSql":"SELECT 2;"}'', JObj [(''finalSql'', JStr ''SELECT 2;'')]),
      (''{"message":""}'', JObj [(''message'', JStr [])]),
      (''{"sql":"SELECT 1;"}'', JObj [(''sql'', JStr ''SELECT 1;'')]),
      (''{"finalText":"ok","message":"m"}'',
         JObj [(''finalText'', JStr ''ok''), (''message'', JStr ''m'')])]\<close>

section \<open>The generator as a whole\<close>

text \<open>
  The platform's response object: the \<^verbatim>\<open>ok\<close> flag (set for a 2xx status), the status, the
  body (absent, or the reads its reader will deliver) and what \<^verbatim>\<open>response.json()\<close>
  resolves to.
\<close>

record response =
  ok :: bool
  http_status :: nat
  body :: "read_result list option"
  json :: "error + jsval"

text \<open>Decimal rendering of a number inside a template string.\<close>

fun show_nat :: "nat \<Rightarrow> string" where
  "show_nat n =
     (if n < 10 then [''0123456789'' ! n]
      else show_nat (n div 10) @ [''0123456789'' ! (n mod 10)])"

declare show_nat.simps [simp del]

text \<open>
  One run of the generator as its consumer sees it: the events delivered, how the
  generator completed, and how often \<^verbatim>\<open>reader.releaseLock()\<close> was called.
\<close>

record stream_run =
  yielded :: "sse_event list"
  outcome :: completion
  releaseLock_calls :: nat

text \<open>
  \<^verbatim>\<open>finally { reader.releaseLock(); }\<close>: the block holds no handler of its own, so an
  error of \<^verbatim>\<open>releaseLock\<close> replaces the completion of the \<^verbatim>\<open>try\<close> block.
\<close>

definition finally_releaseLock :: "error option \<Rightarrow> completion \<Rightarrow> completion" where
  "finally_releaseLock release c = (case release of Some e \<Rightarrow> Threw e | None \<Rightarrow> c)"

text \<open>
  \<^verbatim>\<open>streamAgentResponse\<close>, lines 165 to 244. \<open>fetched\<close> is what \<^verbatim>\<open>fetch\<close> settles to,
  \<open>release\<close> the error \<^verbatim>\<open>releaseLock\<close> throws, if any. The generator is lazy:
  \<open>stop = Some k\<close> is a consumer that leaves its loop while handling the event of index
  \<open>k\<close>, which closes the generator at that \<^verbatim>\<open>yield\<close>; \<open>None\<close> is a consumer that pulls to
  the end.
\<close>

definition streamAgentResponse ::
  "json_parse \<Rightarrow> error + response \<Rightarrow> error option \<Rightarrow> nat option \<Rightarrow> stream_run" where
  "streamAgentResponse parse fetched release stop =
     (case fetched of
        Inl e \<Rightarrow> \<lparr>yielded = [], outcome = Threw e, releaseLock_calls = 0\<rparr>
      | Inr response \<Rightarrow>
          if \<not> ok response then
            \<lparr>yielded = [],
             outcome = Threw (Error (''HTTP error! status: '' @ show_nat (http_status response))),
             releaseLock_calls = 0\<rparr>
          else
            (case body response of
               None \<Rightarrow>
                 \<lparr>yielded = [], outcome = Threw (Error ''No response body''),
                  releaseLock_calls = 0\<rparr>
             | Some reads \<Rightarrow>
                 (case read_loop parse [] reads of
                    (evs, c) \<Rightarrow>
                      (case stop of
                         None \<Rightarrow>
                           \<lparr>yielded = evs, outcome = finally_releaseLock release c,
                            releaseLock_calls = 1\<rparr>
                       | Some k \<Rightarrow>
                           if k < length evs then
                             \<lparr>yielded = take (Suc k) evs,
                              outcome = finally_releaseLock release Returned,
                              releaseLock_calls = 1\<rparr>
                           else
                             \<lparr>yielded = evs, outcome = finally_releaseLock release c,
                              releaseLock_calls = 1\<rparr>))))"

section \<open>The consumer: the event loop of \<^verbatim>\<open>handleSendMessage\<close>\<close>

datatype role = User | Model

record message =
  m_role :: role
  m_text :: jsval

record tool_status =
  name :: jsval
  status :: jsval
  timestamp :: nat

record context_usage =
  chatId :: "jsval option"
  usedChars :: "jsval option"
  capChars :: "jsval option"
  usagePct :: "jsval option"

text \<open>
  The state the loop works on: the React state it sets, the callbacks it has handed to
  \<^verbatim>\<open>setTimeout\<close> (delay in milliseconds and the timestamp the callback filters on), and
  the local \<^verbatim>\<open>lastFullText\<close>. The chat list, which \<^verbatim>\<open>refreshChatList\<close> reloads from
  the backend, is left out.
\<close>

record session =
  messages :: "message list"
  activeTools :: "tool_status list"
  timeouts :: "(nat \<times> nat) list"
  sql :: jsval
  contextUsage :: "context_usage option"
  currentChatId :: "jsval option"
  lastFullText :: string

text \<open>
  \<^verbatim>\<open>===\<close> on payload values. Arrays and objects are compared by reference, and two
  values of different frames are never the same reference.
\<close>

fun strict_eq :: "jsval \<Rightarrow> jsval \<Rightarrow> bool" where
  "strict_eq JNull JNull = True"
| "strict_eq (JBool a) (JBool b) = (a = b)"
| "strict_eq (JNum a) (JNum b) = (a = b)"
| "strict_eq (JStr a) (JStr b) = (a = b)"
| "strict_eq _ _ = False"

text \<open>The updater of lines 336 to 348, with \<open>now\<close> the value of \<^verbatim>\<open>Date.now()\<close>.\<close>

definition tool_update :: "nat \<Rightarrow> jsval \<Rightarrow> jsval \<Rightarrow> session \<Rightarrow> session" where
  "tool_update now n st s =
     (let toolStatus = \<lparr>name = n, status = st, timestamp = now\<rparr>;
          filtered = filter (\<lambda>t. \<not> strict_eq (name t) n) (activeTools s)
      in if strict_eq st (JStr ''start'') then s\<lparr>activeTools := filtered @ [toolStatus]\<rparr>
         else s\<lparr>activeTools := filtered @ [toolStatus],
                timeouts := timeouts s @ [(2000, now)]\<rparr>)"

text \<open>A pending callback of line 344 runs: it drops every entry with its timestamp.\<close>

definition timeout_fires :: "nat \<times> nat \<Rightarrow> session \<Rightarrow> session" where
  "timeout_fires cb s =
     s\<lparr>activeTools := filter (\<lambda>t. timestamp t \<noteq> snd cb) (activeTools s),
       timeouts := remove1 cb (timeouts s)\<rparr>"

text \<open>
  Where an error of the loop body is raised. The statements of the body run inside the
  \<^verbatim>\<open>try\<close> of \<^verbatim>\<open>handleSendMessage\<close>, and what they throw is caught at line 404. The
  updater functions handed to \<^verbatim>\<open>setMessages\<close> run later, when React renders: what they
  throw is raised outside that \<^verbatim>\<open>try\<close>, and nothing in this code catches it.
\<close>

datatype fault = InLoop error | InRender error

text \<open>
  \<^verbatim>\<open>newMessages[newMessages.length - 1].text = t\<close>, inside an updater; on an empty
  transcript the element is \<^verbatim>\<open>undefined\<close> and the assignment throws. The transcript is
  never empty while the loop runs: \<^verbatim>\<open>handleSendMessage\<close> appends the user's message and
  an empty reply before it.
\<close>

definition set_last_text :: "jsval \<Rightarrow> session \<Rightarrow> fault + session" where
  "set_last_text t s =
     (if messages s = [] then Inl (InRender (TypeError ''Cannot set properties of undefined''))
      else Inr (s\<lparr>messages := butlast (messages s) @ [(last (messages s))\<lparr>m_text := t\<rparr>]\<rparr>))"

text \<open>Lines 375 to 383.\<close>

definition delta_update :: "string \<Rightarrow> session \<Rightarrow> fault + session" where
  "delta_update fullText s =
     (let cleanedText = trim fullText
      in if cleanedText \<noteq> [] \<or> lastFullText s \<noteq> []
         then set_last_text (JStr cleanedText) (s\<lparr>lastFullText := cleanedText\<rparr>)
         else Inr s)"

text \<open>\<^verbatim>\<open>formatSqlSafely\<close>; the formatter is a library, \<open>None\<close> when it throws.\<close>

definition formatSqlSafely :: "(jsval \<Rightarrow> jsval option) \<Rightarrow> jsval \<Rightarrow> jsval" where
  "formatSqlSafely format rawSql = (case format rawSql of Some f \<Rightarrow> f | None \<Rightarrow> rawSql)"

text \<open>
  Lines 387 to 396. The test of line 387 calls \<^verbatim>\<open>trim\<close> in the loop body, where a truthy
  \<^verbatim>\<open>finalText\<close> that is not a string throws.
\<close>

definition done_update :: "(jsval \<Rightarrow> jsval option) \<Rightarrow> jsval \<Rightarrow> session \<Rightarrow> fault + session" where
  "done_update format d s =
     (let shown =
        (case field d ''finalText'' of
           Some (JStr t) \<Rightarrow> if trim t \<noteq> [] then set_last_text (JStr (trim t)) s else Inr s
         | Some v \<Rightarrow> if truthy v then Inl (InLoop (TypeError ''trim is not a function'')) else Inr s
         | None \<Rightarrow> Inr s)
      in case shown of
           Inl e \<Rightarrow> Inl e
         | Inr s' \<Rightarrow>
             (case field d ''finalSql'' of
                Some q \<Rightarrow> if truthy q then Inr (s'\<lparr>sql := formatSqlSafely format q\<rparr>) else Inr s'
              | None \<Rightarrow> Inr s'))"

text \<open>
  The notice of line 372 and the fallback of lines 400 and 406. In the source the notice
  starts with a warning sign, which is outside the 8-bit range.
\<close>

definition rollover_notice :: string where
  "rollover_notice = ''Context limit reached. Continuing in a new chat session.''"

definition pipeline_error :: string where
  "pipeline_error = ''Error in architecture pipeline. Re-attempt advised.''"

text \<open>
  The body of the \<^verbatim>\<open>for await\<close> loop, lines 329 to 402. Each of the seven tags reads a
  property of the payload, which throws on null. For six of them the first read is in a
  test of the loop body. For \<^verbatim>\<open>error\<close> the only read, \<^verbatim>\<open>event.data.message\<close> at line
  400, is inside the updater.
\<close>

definition on_event :: "(jsval \<Rightarrow> jsval option) \<Rightarrow> nat \<Rightarrow> sse_event \<Rightarrow> session \<Rightarrow> fault + session" where
  "on_event format now ev s =
     (let tag = event ev; d = data ev in
      if d = JNull \<and> tag \<in> set [''tool'', ''context'', ''chat_rollover'', ''delta'', ''sql'', ''done'']
      then Inl (InLoop null_read)
      else if d = JNull \<and> tag = ''error'' then Inl (InRender null_read)
      else if tag = ''tool'' \<and> truthy_opt (field d ''name'') \<and> truthy_opt (field d ''status'') then
        (case (field d ''name'', field d ''status'') of
           (Some n, Some st) \<Rightarrow> Inr (tool_update now n st s)
         | _ \<Rightarrow> Inr s)
      else if tag = ''context'' \<and> truthy_opt (field d ''chatId'') then
        Inr (s\<lparr>contextUsage := Some \<lparr>chatId = field d ''chatId'', usedChars = field d ''usedChars'',
                                       capChars = field d ''capChars'', usagePct = field d ''usagePct''\<rparr>\<rparr>)
      else if tag = ''chat_rollover'' \<and> truthy_opt (field d ''newChatId'') then
        Inr (s\<lparr>currentChatId := field d ''newChatId'',
               sql := JStr [],
               contextUsage := Some \<lparr>chatId = field d ''newChatId'', usedChars = Some (JNum 0),
                                      capChars = Some (JNum 40000), usagePct = Some (JNum 0)\<rparr>,
               messages := messages s @ [\<lparr>m_role = Model, m_text = JStr rollover_notice\<rparr>]\<rparr>)
      else if tag = ''delta'' \<and> field d ''fullText'' \<noteq> None then
        (case field d ''fullText'' of
           Some (JStr fullText) \<Rightarrow> delta_update fullText s
         | _ \<Rightarrow> Inl (InLoop (TypeError ''trim is not a function'')))
      else if tag = ''sql'' \<and> truthy_opt (field d ''sql'') then
        (case field d ''sql'' of Some q \<Rightarrow> Inr (s\<lparr>sql := q\<rparr>) | None \<Rightarrow> Inr s)
      else if tag = ''done'' then done_update format d s
      else if tag = ''error'' then
        Inr (s\<lparr>messages := messages s @
               [\<lparr>m_role = Model,
                 m_text = (case field d ''message'' of
                             Some m \<Rightarrow> if truthy m then m else JStr pipeline_error
                           | None \<Rightarrow> JStr pipeline_error)\<rparr>]\<rparr>)
      else Inr s)"

text \<open>
  The loop with its \<^verbatim>\<open>catch\<close>, lines 328 to 407: the events come with the clock value
  at their arrival. An error of the loop body ends the loop and appends the fallback
  message. An error of an updater is not caught: the render that applies the update
  throws it, and the run ends with that error in place of a state.
\<close>

fun consume :: "(jsval \<Rightarrow> jsval option) \<Rightarrow> (nat \<times> sse_event) list \<Rightarrow> session \<Rightarrow> error + session" where
  "consume format [] s = Inr s"
| "consume format ((now, ev) # rest) s =
     (case on_event format now ev s of
        Inl (InLoop e) \<Rightarrow>
          Inr (s\<lparr>messages := messages s @ [\<lparr>m_role = Model, m_text = JStr pipeline_error\<rparr>]\<rparr>)
      | Inl (InRender e) \<Rightarrow> Inl e
      | Inr s' \<Rightarrow> consume format rest s')"

section \<open>\<^verbatim>\<open>executeSql\<close>\<close>

record supabase_config =
  projectRef :: string
  accessToken :: string

text \<open>A request as handed to \<^verbatim>\<open>fetch\<close>; the body is the object given to \<^verbatim>\<open>JSON.stringify\<close>.\<close>

record request =
  url :: string
  http_method :: string
  headers :: "(string \<times> string) list"
  payload :: jsval

definition getHeaders :: "string option \<Rightarrow> bool \<Rightarrow> (string \<times> string) list" where
  "getHeaders authToken includeAuth =
     [(''Content-Type'', ''application/json'')] @
     (case authToken of
        Some t \<Rightarrow> if includeAuth \<and> t \<noteq> [] then [(''Authorization'', ''Bearer '' @ t)] else []
      | None \<Rightarrow> [])"

text \<open>An object literal of type \<^verbatim>\<open>ExecutionResult\<close>.\<close>

definition execution_result :: "bool \<Rightarrow> jsval \<Rightarrow> jsval option \<Rightarrow> jsval" where
  "execution_result success msg d =
     JObj ([(''success'', JBool success), (''message'', msg)] @
           (case d of Some x \<Rightarrow> [(''data'', x)] | None \<Rightarrow> []))"

text \<open>
  Whether a value has the shape of the interface \<^verbatim>\<open>ExecutionResult\<close>: an object with a
  boolean \<^verbatim>\<open>success\<close> and a string \<^verbatim>\<open>message\<close> (\<^verbatim>\<open>data\<close> is optional and of any type).
\<close>

definition is_ExecutionResult :: "jsval \<Rightarrow> bool" where
  "is_ExecutionResult v =
     ((case field v ''success'' of Some (JBool b) \<Rightarrow> True | _ \<Rightarrow> False)
      \<and> (case field v ''message'' of Some (JStr m) \<Rightarrow> True | _ \<Rightarrow> False))"

text \<open>The \<^verbatim>\<open>catch\<close> of lines 282 to 289.\<close>

definition caught :: "error \<Rightarrow> jsval" where
  "caught e =
     execution_result False
       (JStr (if message_of e \<noteq> [] then message_of e
              else ''An unexpected error occurred while communicating with the backend.''))
       None"

text \<open>\<^verbatim>\<open>data.detail || data.message || `Error ${response.status}`\<close> on a payload that is not null.\<close>

definition failure_message :: "response \<Rightarrow> jsval \<Rightarrow> jsval" where
  "failure_message response d =
     (if truthy_opt (field d ''detail'') then (case field d ''detail'' of Some v \<Rightarrow> v | None \<Rightarrow> JNull)
      else if truthy_opt (field d ''message'') then (case field d ''message'' of Some v \<Rightarrow> v | None \<Rightarrow> JNull)
      else JStr (''Error '' @ show_nat (http_status response)))"

text \<open>Lines 273 to 281, inside the \<^verbatim>\<open>try\<close>: the read of \<^verbatim>\<open>data.detail\<close> throws on null.\<close>

definition reply_result :: "response \<Rightarrow> jsval \<Rightarrow> error + jsval" where
  "reply_result response d =
     (if \<not> ok response then
        (if d = JNull then Inl null_read
         else Inr (execution_result False (failure_message response d) (Some d)))
      else Inr d)"

text \<open>The request of lines 261 to 269.\<close>

definition sql_request :: "string \<Rightarrow> string option \<Rightarrow> supabase_config \<Rightarrow> string \<Rightarrow> request" where
  "sql_request backend_url authToken config query =
     \<lparr>url = backend_url @ ''/api/supabase/execute-sql'',
      http_method = ''POST'',
      headers = getHeaders authToken False,
      payload = JObj [(''projectRef'', JStr (projectRef config)),
                      (''accessToken'', JStr (accessToken config)),
                      (''query'', JStr query)]\<rparr>"

text \<open>
  One call of \<^verbatim>\<open>executeSql\<close>: the requests it issued and what its promise settles to,
  \<open>Inl\<close> for a rejection.
\<close>

record exec_run =
  requests :: "request list"
  settled :: "error + jsval"

definition executeSql ::
  "string \<Rightarrow> string option \<Rightarrow> (request \<Rightarrow> error + response) \<Rightarrow> supabase_config \<Rightarrow> string \<Rightarrow> exec_run" where
  "executeSql backend_url authToken fetch config query =
     (if projectRef config = [] \<or> accessToken config = [] then
        \<lparr>requests = [],
         settled = Inr (execution_result False
                          (JStr ''Supabase Project Ref or Access Token is missing.'') None)\<rparr>
      else
        (let req = sql_request backend_url authToken config query
         in \<lparr>requests = [req],
             settled =
               (case fetch req of
                  Inl e \<Rightarrow> Inr (caught e)
                | Inr response \<Rightarrow>
                    (case json response of
                       Inl e \<Rightarrow> Inr (caught e)
                     | Inr d \<Rightarrow>
                         (case reply_result response d of
                            Inl e \<Rightarrow> Inr (caught e)
                          | Inr r \<Rightarrow> Inr r)))\<rparr>))"

section \<open>Splitting and buffering\<close>

lemma split_nl_nonempty: "split_nl s \<noteq> []"
  by (induction s) (auto split: list.splits)

lemma split_nl_append:
  "split_nl (a @ b) = butlast (split_nl a) @ split_nl (last (split_nl a) @ b)"
proof (induction a)
  case Nil
  show ?case by simp
next
  case (Cons c a)
  obtain l ls where s: "split_nl a = l # ls"
    using split_nl_nonempty [of a] by (cases "split_nl a") auto
  show ?case
  proof (cases "c = CHR 0x0A")
    case True
    then show ?thesis using Cons split_nl_nonempty [of a] by simp
  next
    case False
    show ?thesis
    proof (cases ls)
      case Nil
      with s False Cons show ?thesis by simp
    next
      case (Cons l' ls')
      obtain m ms where ab: "split_nl (a @ b) = m # ms"
        using split_nl_nonempty [of "a @ b"] by (cases "split_nl (a @ b)") auto
      from Cons s False Cons.IH ab show ?thesis by simp
    qed
  qed
qed

lemma split_nl_no_nl: "CHR 0x0A \<notin> set (concat (split_nl s))"
  by (induction s) (auto split: list.splits)

lemma split_nl_last_no_nl: "CHR 0x0A \<notin> set (last (split_nl s))"
  using split_nl_no_nl [of s] split_nl_nonempty [of s] by (metis UN_iff last_in_set set_concat)

lemma split_nl_single: "CHR 0x0A \<notin> set s \<Longrightarrow> split_nl s = [s]"
  by (induction s) auto

lemma split_nl_line: "CHR 0x0A \<notin> set l \<Longrightarrow> split_nl (l @ CHR 0x0A # b) = l # split_nl b"
  by (induction l) auto

lemma split_nl_ends: "s = [] \<or> last s = CHR 0x0A \<Longrightarrow> last (split_nl s) = []"
proof (cases "s = []")
  case True
  then show ?thesis by simp
next
  case False
  assume "s = [] \<or> last s = CHR 0x0A"
  with False have s: "s = butlast s @ [CHR 0x0A]"
    by (metis append_butlast_last_id)
  have "split_nl (butlast s @ [CHR 0x0A])
        = butlast (split_nl (butlast s)) @ split_nl (last (split_nl (butlast s)) @ [CHR 0x0A])"
    by (rule split_nl_append)
  also have "split_nl (last (split_nl (butlast s)) @ [CHR 0x0A]) = [last (split_nl (butlast s)), []]"
    using split_nl_line [OF split_nl_last_no_nl, of "butlast s" "[]"] by simp
  finally have "last (split_nl (butlast s @ [CHR 0x0A])) = []" by simp
  with s show ?thesis by simp
qed

lemma chunk_lines_concat:
  "CHR 0x0A \<notin> set buf \<Longrightarrow> concat (chunk_lines buf vs) = butlast (split_nl (buf @ concat vs))
   \<and> residual buf vs = last (split_nl (buf @ concat vs))"
proof (induction vs arbitrary: buf)
  case Nil
  then show ?case by (simp add: split_nl_single)
next
  case (Cons v vs)
  note IH = Cons.IH [OF split_nl_last_no_nl [of "buf @ v"]]
  have "split_nl (buf @ v @ concat vs)
        = butlast (split_nl (buf @ v)) @ split_nl (last (split_nl (buf @ v)) @ concat vs)"
    using split_nl_append [of "buf @ v" "concat vs"] by simp
  then show ?case using IH
    by (simp add: Let_def butlast_append split_nl_nonempty)
qed

lemma read_loop_events:
  "fst (read_loop parse buf (map Value vs)) = concat (map (process_lines parse None) (chunk_lines buf vs))"
  by (induction vs arbitrary: buf) (auto simp: Let_def split: prod.splits dest: arg_cong [where f = fst])

lemma read_loop_append:
  "read_loop parse buf (map Value pre @ rs)
   = (concat (map (process_lines parse None) (chunk_lines buf pre))
        @ fst (read_loop parse (residual buf pre) rs),
      snd (read_loop parse (residual buf pre) rs))"
  by (induction pre arbitrary: buf) (auto simp: Let_def split: prod.splits)

lemma split_nl_join:
  "concat (map (\<lambda>l. l @ [CHR 0x0A]) (butlast (split_nl s))) @ last (split_nl s) = s"
  using split_nl_nonempty by (induction s) (auto split: list.splits)

section \<open>The line loop\<close>

lemma data_not_event: "startsWith line ''data: '' \<Longrightarrow> \<not> startsWith line ''event: ''"
  by (cases line) (auto simp: startsWith_def)

lemma process_line_failed:
  "startsWith line ''data: '' \<Longrightarrow> parse (trim (drop 6 line)) = None
   \<Longrightarrow> process_line parse cur line = ([], cur)"
  by (simp add: process_line_def data_not_event Let_def)

lemma process_lines_append:
  "process_lines parse cur (xs @ ys)
   = process_lines parse cur xs @ process_lines parse (label_after parse cur xs) ys"
  by (induction xs arbitrary: cur) (auto split: prod.splits)

lemma label_after_append:
  "label_after parse cur (xs @ ys) = label_after parse (label_after parse cur xs) ys"
  by (induction xs arbitrary: cur) auto

lemma process_line_emits_clears:
  "fst (process_line parse cur line) \<noteq> [] \<Longrightarrow> snd (process_line parse cur line) = None"
  by (auto simp: process_line_def Let_def split: if_splits option.splits sum.splits)

lemma process_line_not_data:
  "\<not> startsWith line ''data: '' \<Longrightarrow> fst (process_line parse cur line) = []"
  by (auto simp: process_line_def Let_def)

lemma process_lines_no_data:
  "\<forall>l \<in> set lines. \<not> startsWith l ''data: '' \<Longrightarrow> process_lines parse cur lines = []"
proof (induction lines arbitrary: cur)
  case Nil
  show ?case by simp
next
  case (Cons l lines)
  then have "fst (process_line parse cur l) = []" by (simp add: process_line_not_data)
  with Cons show ?case by (cases "process_line parse cur l") simp
qed

lemma process_lines_skip:
  assumes "process_line parse (label_after parse cur xs) line = ([], label_after parse cur xs)"
  shows "process_lines parse cur (xs @ line # ys) = process_lines parse cur (xs @ ys)"
  using assms by (simp add: process_lines_append)

lemma failed_line_in_chunk:
  assumes d: "startsWith line ''data: ''" and p: "parse (trim (drop 6 line)) = None"
    and n: "CHR 0x0A \<notin> set line" and e: "last (split_nl (buffer @ a)) = []"
  shows "read_loop parse buffer (Value (a @ line @ CHR 0x0A # b) # rs)
         = read_loop parse buffer (Value (a @ b) # rs)"
proof -
  let ?X = "butlast (split_nl (buffer @ a))"
  have 1: "split_nl (buffer @ a @ line @ CHR 0x0A # b) = ?X @ line # split_nl b"
    using split_nl_append [of "buffer @ a" "line @ CHR 0x0A # b"] e n
    by (simp add: split_nl_line)
  have 2: "split_nl (buffer @ a @ b) = ?X @ split_nl b"
    using split_nl_append [of "buffer @ a" b] e by simp
  have 3: "butlast (?X @ line # split_nl b) = ?X @ line # butlast (split_nl b)"
    by (simp add: butlast_append split_nl_nonempty)
  have 4: "butlast (?X @ split_nl b) = ?X @ butlast (split_nl b)"
    by (simp add: butlast_append split_nl_nonempty)
  have 5: "process_lines parse None (?X @ line # butlast (split_nl b))
           = process_lines parse None (?X @ butlast (split_nl b))"
    by (rule process_lines_skip) (simp add: process_line_failed d p)
  show ?thesis
    by (simp add: Let_def 1 2 3 4 5 split_nl_nonempty)
qed

lemma residual_boundary:
  assumes "concat pre @ a = [] \<or> last (concat pre @ a) = CHR 0x0A"
  shows "last (split_nl (residual [] pre @ a)) = []"
proof -
  have "split_nl (concat pre @ a)
        = butlast (split_nl (concat pre)) @ split_nl (last (split_nl (concat pre)) @ a)"
    by (rule split_nl_append)
  then have "last (split_nl (concat pre @ a)) = last (split_nl (last (split_nl (concat pre)) @ a))"
    by (simp add: split_nl_nonempty)
  moreover have "residual [] pre = last (split_nl (concat pre))"
    using chunk_lines_concat [of "[]" pre] by simp
  ultimately show ?thesis using split_nl_ends [OF assms] by simp
qed

lemma read_loop_unfinished:
  "CHR 0x0A \<notin> set buf \<Longrightarrow> CHR 0x0A \<notin> set (concat mids)
   \<Longrightarrow> read_loop parse buf (map Value mids @ rs) = read_loop parse (buf @ concat mids) rs"
proof (induction mids arbitrary: buf)
  case Nil
  show ?case by simp
next
  case (Cons m mids)
  then have "split_nl (buf @ m) = [buf @ m]" by (simp add: split_nl_single)
  moreover have "read_loop parse (buf @ m) (map Value mids @ rs)
                 = read_loop parse ((buf @ m) @ concat mids) rs"
    using Cons.prems by (intro Cons.IH) auto
  ultimately show ?case by simp
qed

lemma failed_line_across_chunks:
  assumes d: "startsWith (l1 @ concat mids @ l2) ''data: ''"
    and p: "parse (trim (drop 6 (l1 @ concat mids @ l2))) = None"
    and n: "CHR 0x0A \<notin> set (l1 @ concat mids @ l2)"
    and e: "last (split_nl (buffer @ a)) = []"
  shows "read_loop parse buffer (Value (a @ l1) # map Value mids @ Value (l2 @ CHR 0x0A # b) # rs)
         = read_loop parse buffer (Value a # Value b # rs)"
proof -
  let ?X = "butlast (split_nl (buffer @ a))"
  let ?line = "l1 @ concat mids @ l2"
  have n1: "CHR 0x0A \<notin> set l1" and nm: "CHR 0x0A \<notin> set (concat mids)"
    using n by auto
  have 1: "split_nl (buffer @ a @ l1) = ?X @ [l1]"
    using split_nl_append [of "buffer @ a" l1] e n1 by (simp add: split_nl_single)
  have 2: "read_loop parse l1 (map Value mids @ Value (l2 @ CHR 0x0A # b) # rs)
           = read_loop parse (l1 @ concat mids) (Value (l2 @ CHR 0x0A # b) # rs)"
    using n1 nm by (rule read_loop_unfinished)
  have 3: "split_nl (l1 @ concat mids @ l2 @ CHR 0x0A # b) = ?line # split_nl b"
    using split_nl_line [OF n, of b] by simp
  have 4: "process_lines parse None (?line # butlast (split_nl b))
           = process_lines parse None (butlast (split_nl b))"
    using process_line_failed [where parse = parse, OF d p, of None] by simp
  have 5: "read_loop parse (l1 @ concat mids) (Value (l2 @ CHR 0x0A # b) # rs)
           = read_loop parse [] (Value b # rs)"
    using 3 4 by (simp add: Let_def split_nl_nonempty)
  have 6: "read_loop parse buffer (Value (a @ l1) # map Value mids @ Value (l2 @ CHR 0x0A # b) # rs)
           = (case read_loop parse l1 (map Value mids @ Value (l2 @ CHR 0x0A # b) # rs) of
                (evs', c) \<Rightarrow> (process_lines parse None ?X @ evs', c))"
    using 1 by (simp add: Let_def)
  have 7: "read_loop parse buffer (Value a # Value b # rs)
           = (case read_loop parse [] (Value b # rs) of
                (evs', c) \<Rightarrow> (process_lines parse None ?X @ evs', c))"
    using e by (simp add: Let_def)
  show ?thesis unfolding 6 7 2 5 ..
qed

lemma truthy_fields_agree:
  assumes "\<forall>f \<in> set [''message'', ''textDelta'', ''name'', ''status'', ''newChatId''].
             field d f \<noteq> None \<longrightarrow> truthy_opt (field d f)"
  shows "infer_event_type d = spec_precedence d"
proof -
  have t: "truthy_opt (field d f) = (field d f \<noteq> None)"
    if "f \<in> set [''message'', ''textDelta'', ''name'', ''status'', ''newChatId'']" for f
    using assms that by (cases "field d f") auto
  have 1: "truthy_opt (field d ''message'') = (field d ''message'' \<noteq> None)" by (rule t) simp
  have 2: "truthy_opt (field d ''textDelta'') = (field d ''textDelta'' \<noteq> None)" by (rule t) simp
  have 3: "truthy_opt (field d ''name'') = (field d ''name'' \<noteq> None)" by (rule t) simp
  have 4: "truthy_opt (field d ''status'') = (field d ''status'' \<noteq> None)" by (rule t) simp
  have 5: "truthy_opt (field d ''newChatId'') = (field d ''newChatId'' \<noteq> None)" by (rule t) simp
  show ?thesis
    unfolding infer_event_type_def spec_precedence_def 1 2 3 4 5 by simp
qed

section \<open>The claims about the parser\<close>

text \<open>
  Claim C6. Each chunk is appended to the residual buffer and the result is split at the
  line feeds. The segments before the last one are the lines handed to the line loop;
  the last segment, which holds no line feed, becomes the new buffer and is not parsed.
  Putting the line feeds back gives the buffered text again. Over a whole stream the
  lines handed to the line loop are, in order, exactly the terminated lines of the
  concatenated chunks, so a line cut by a chunk boundary is parsed once, when its line
  feed has arrived; the events of the stream are those of the line loop on these lines.
\<close>

theorem residual_buffer_split:
  "read_loop parse buffer (Value v # rs)
     = (process_lines parse None (butlast (split_nl (buffer @ v)))
          @ fst (read_loop parse (last (split_nl (buffer @ v))) rs),
        snd (read_loop parse (last (split_nl (buffer @ v))) rs))
   \<and> concat (map (\<lambda>l. l @ [CHR 0x0A]) (butlast (split_nl (buffer @ v))))
        @ last (split_nl (buffer @ v)) = buffer @ v
   \<and> CHR 0x0A \<notin> set (last (split_nl (buffer @ v)))
   \<and> concat (chunk_lines [] chunks) = butlast (split_nl (concat chunks))
   \<and> residual [] chunks = last (split_nl (concat chunks))
   \<and> parse_stream parse chunks = concat (map (process_lines parse None) (chunk_lines [] chunks))"
proof (intro conjI)
  show "read_loop parse buffer (Value v # rs)
     = (process_lines parse None (butlast (split_nl (buffer @ v)))
          @ fst (read_loop parse (last (split_nl (buffer @ v))) rs),
        snd (read_loop parse (last (split_nl (buffer @ v))) rs))"
    by (simp add: Let_def split: prod.splits)
  show "concat (map (\<lambda>l. l @ [CHR 0x0A]) (butlast (split_nl (buffer @ v))))
        @ last (split_nl (buffer @ v)) = buffer @ v"
    by (rule split_nl_join)
  show "CHR 0x0A \<notin> set (last (split_nl (buffer @ v)))"
    by (rule split_nl_last_no_nl)
  show "concat (chunk_lines [] chunks) = butlast (split_nl (concat chunks))"
    using chunk_lines_concat [of "[]" chunks] by simp
  show "residual [] chunks = last (split_nl (concat chunks))"
    using chunk_lines_concat [of "[]" chunks] by simp
  show "parse_stream parse chunks = concat (map (process_lines parse None) (chunk_lines [] chunks))"
    by (simp add: parse_stream_def read_loop_events)
qed

text \<open>
  Claim C3. A \<^verbatim>\<open>data:\<close> line whose payload fails to deserialize yields no event and
  leaves the pending label as it was, so the line loop behaves as if the line were not
  there: the events of the lines before and after it are unchanged. The same holds for
  the whole stream, whether the line arrives inside one chunk or is spread over
  several: the events are those of the stream with the line taken out.
\<close>

theorem malformed_frame_skipped:
  assumes "startsWith line ''data: ''" and "parse (trim (drop 6 line)) = None"
  shows "process_line parse currentEvent line = ([], currentEvent)
     \<and> process_lines parse currentEvent (before @ line # after)
         = process_lines parse currentEvent (before @ after)
     \<and> (CHR 0x0A \<notin> set line
          \<and> (concat pre @ a = [] \<or> last (concat pre @ a) = CHR 0x0A)
        \<longrightarrow> parse_stream parse (pre @ [a @ line @ CHR 0x0A # b] @ post)
            = parse_stream parse (pre @ [a @ b] @ post))
     \<and> (CHR 0x0A \<notin> set line \<and> line = u @ concat mids @ w
          \<and> (concat pre @ a = [] \<or> last (concat pre @ a) = CHR 0x0A)
        \<longrightarrow> parse_stream parse (pre @ [a @ u] @ mids @ [w @ CHR 0x0A # b] @ post)
            = parse_stream parse (pre @ [a, b] @ post))"
proof (intro conjI impI)
  show "process_line parse currentEvent line = ([], currentEvent)"
    using assms by (rule process_line_failed)
  show "process_lines parse currentEvent (before @ line # after)
         = process_lines parse currentEvent (before @ after)"
    by (rule process_lines_skip) (simp add: process_line_failed assms)
next
  assume h: "CHR 0x0A \<notin> set line
          \<and> (concat pre @ a = [] \<or> last (concat pre @ a) = CHR 0x0A)"
  then have e: "last (split_nl (residual [] pre @ a)) = []"
    by (simp add: residual_boundary)
  have "read_loop parse (residual [] pre) (Value (a @ line @ CHR 0x0A # b) # map Value post)
        = read_loop parse (residual [] pre) (Value (a @ b) # map Value post)"
  proof (rule failed_line_in_chunk)
    show "startsWith line ''data: ''" by (rule assms(1))
    show "parse (trim (drop 6 line)) = None" by (rule assms(2))
    show "CHR 0x0A \<notin> set line" using h by simp
    show "last (split_nl (residual [] pre @ a)) = []" by (rule e)
  qed
  then show "parse_stream parse (pre @ [a @ line @ CHR 0x0A # b] @ post)
            = parse_stream parse (pre @ [a @ b] @ post)"
    unfolding parse_stream_def
    using read_loop_append [of parse "[]" pre "Value (a @ line @ CHR 0x0A # b) # map Value post"]
          read_loop_append [of parse "[]" pre "Value (a @ b) # map Value post"]
    by simp
next
  assume h: "CHR 0x0A \<notin> set line \<and> line = u @ concat mids @ w
          \<and> (concat pre @ a = [] \<or> last (concat pre @ a) = CHR 0x0A)"
  then have e: "last (split_nl (residual [] pre @ a)) = []"
    by (simp add: residual_boundary)
  have "read_loop parse (residual [] pre)
          (Value (a @ u) # map Value mids @ Value (w @ CHR 0x0A # b) # map Value post)
        = read_loop parse (residual [] pre) (Value a # Value b # map Value post)"
  proof (rule failed_line_across_chunks)
    show "startsWith (u @ concat mids @ w) ''data: ''" using assms(1) h by auto
    show "parse (trim (drop 6 (u @ concat mids @ w))) = None" using assms(2) h by auto
    show "CHR 0x0A \<notin> set (u @ concat mids @ w)" using h by auto
    show "last (split_nl (residual [] pre @ a)) = []" by (rule e)
  qed
  then show "parse_stream parse (pre @ [a @ u] @ mids @ [w @ CHR 0x0A # b] @ post)
            = parse_stream parse (pre @ [a, b] @ post)"
    unfolding parse_stream_def
    using read_loop_append [of parse "[]" pre
            "Value (a @ u) # map Value mids @ Value (w @ CHR 0x0A # b) # map Value post"]
          read_loop_append [of parse "[]" pre "Value a # Value b # map Value post"]
    by simp
qed

theorem malformed_frame_skipped_witness:
  \<open>startsWith ''data: {bad'' ''data: ''
   \<and> parse_table (trim (drop 6 ''data: {bad'')) = None
   \<and> process_line parse_table (Some ''sql'') ''data: {bad'' = ([], Some ''sql'')
   \<and> parse_stream parse_table
        [''data: {bad'' @ CHR 0x0A # ''data: {"sql":"SELECT 1;"}'' @ [CHR 0x0A]]
       = parse_stream parse_table [''data: {"sql":"SELECT 1;"}'' @ [CHR 0x0A]]
   \<and> parse_stream parse_table
        [''data: '', ''{b'', ''ad'' @ CHR 0x0A # ''data: {"sql":"SELECT 1;"}'' @ [CHR 0x0A]]
       = parse_stream parse_table [[], ''data: {"sql":"SELECT 1;"}'' @ [CHR 0x0A]]
   \<and> parse_stream parse_table [''data: {"sql":"SELECT 1;"}'' @ [CHR 0x0A]]
       = [SSEEvent ''sql'' (JObj [(''sql'', JStr ''SELECT 1;'')])]\<close>
proof -
  have h1: \<open>startsWith ''data: {bad'' ''data: ''\<close>
    by (simp add: startsWith_def)
  have h2: \<open>parse_table (trim (drop 6 ''data: {bad'')) = None\<close>
    by code_simp
  have h3: \<open>CHR 0x0A \<notin> set ''data: {bad''
      \<and> (concat [] @ [] = ([]::string) \<or> last (concat [] @ []) = CHR 0x0A)\<close>
    by simp
  have h4: \<open>CHR 0x0A \<notin> set ''data: {bad'' \<and> ''data: {bad'' = ''data: '' @ concat [''{b''] @ ''ad''
      \<and> (concat [] @ [] = ([]::string) \<or> last (concat [] @ []) = CHR 0x0A)\<close>
    by simp
  have ok: \<open>parse_stream parse_table [''data: {"sql":"SELECT 1;"}'' @ [CHR 0x0A]]
       = [SSEEvent ''sql'' (JObj [(''sql'', JStr ''SELECT 1;'')])]\<close>
    by code_simp
  note t = malformed_frame_skipped [where parse = parse_table and line = "''data: {bad''"
      and currentEvent = "Some ''sql''" and pre = "[]" and a = "[]" and post = "[]"
      and b = \<open>''data: {"sql":"SELECT 1;"}'' @ [CHR 0x0A]\<close>
      and u = "''data: ''" and mids = "[''{b'']" and w = "''ad''", OF h1 h2]
  have c1: \<open>process_line parse_table (Some ''sql'') ''data: {bad'' = ([], Some ''sql'')\<close>
    using t by (rule conjunct1)
  have c2: \<open>parse_stream parse_table
        [''data: {bad'' @ CHR 0x0A # ''data: {"sql":"SELECT 1;"}'' @ [CHR 0x0A]]
       = parse_stream parse_table [''data: {"sql":"SELECT 1;"}'' @ [CHR 0x0A]]\<close>
    using t [THEN conjunct2, THEN conjunct2, THEN conjunct1, rule_format, OF h3] by simp
  have c3: \<open>parse_stream parse_table
        [''data: '', ''{b'', ''ad'' @ CHR 0x0A # ''data: {"sql":"SELECT 1;"}'' @ [CHR 0x0A]]
       = parse_stream parse_table [[], ''data: {"sql":"SELECT 1;"}'' @ [CHR 0x0A]]\<close>
    using t [THEN conjunct2, THEN conjunct2, THEN conjunct2, rule_format, OF h4] by simp
  show ?thesis by (intro conjI h1 h2 c1 c2 c3 ok)
qed

text \<open>
  Claim C1, evaluated at a failing input. Delivered as one chunk, the label line
  \<^verbatim>\<open>event: done\<close> and its data line give an event tagged \<^verbatim>\<open>done\<close>; delivered as two
  chunks, cut between the two lines, the label is forgotten and the same payload is
  tagged \<^verbatim>\<open>delta\<close> by inference.
\<close>

theorem label_lost_between_chunks:
  \<open>parse_stream parse_table
      [''event: done'' @ [CHR 0x0A] @ ''data: {"finalSql":"SELECT 2;"}'' @ [CHR 0x0A]]
     = [SSEEvent ''done'' (JObj [(''finalSql'', JStr ''SELECT 2;'')])]
   \<and> parse_stream parse_table
      [''event: done'' @ [CHR 0x0A], ''data: {"finalSql":"SELECT 2;"}'' @ [CHR 0x0A]]
     = [SSEEvent ''delta'' (JObj [(''finalSql'', JStr ''SELECT 2;'')])]\<close>
  by code_simp

text \<open>
  Claim C7. A line that emits an event leaves \<^verbatim>\<open>currentEvent\<close> null, so a \<^verbatim>\<open>data:\<close>
  line that directly follows it, with a payload other than null, is tagged by the
  inference on its payload and not by the earlier label. Lines that are not \<^verbatim>\<open>data:\<close>
  lines, label lines among them, add no event at the end of a run of lines, and a last
  chunk that completes no \<^verbatim>\<open>data:\<close> line adds no event to the stream.
\<close>

theorem label_cleared_after_emission:
  "(fst (process_line parse currentEvent line) \<noteq> []
      \<longrightarrow> snd (process_line parse currentEvent line) = None)
   \<and> (fst (process_line parse currentEvent line) \<noteq> [] \<and> startsWith next_line ''data: ''
        \<and> trim (drop 6 next_line) \<noteq> [] \<and> parse (trim (drop 6 next_line)) = Some d \<and> d \<noteq> JNull
      \<longrightarrow> process_lines parse currentEvent [line, next_line]
          = fst (process_line parse currentEvent line) @ [SSEEvent (infer_event_type d) d])
   \<and> ((\<forall>l \<in> set lines. \<not> startsWith l ''data: '')
      \<longrightarrow> process_lines parse currentEvent (before @ lines) = process_lines parse currentEvent before)
   \<and> ((\<forall>l \<in> set (butlast (split_nl (residual [] chunks @ c))). \<not> startsWith l ''data: '')
      \<longrightarrow> parse_stream parse (chunks @ [c]) = parse_stream parse chunks)"
proof (intro conjI impI)
  show "snd (process_line parse currentEvent line) = None"
    if "fst (process_line parse currentEvent line) \<noteq> []"
    using that by (rule process_line_emits_clears)
  show "process_lines parse currentEvent [line, next_line]
          = fst (process_line parse currentEvent line) @ [SSEEvent (infer_event_type d) d]"
    if h: "fst (process_line parse currentEvent line) \<noteq> [] \<and> startsWith next_line ''data: ''
        \<and> trim (drop 6 next_line) \<noteq> [] \<and> parse (trim (drop 6 next_line)) = Some d \<and> d \<noteq> JNull"
  proof -
    from h have c: "snd (process_line parse currentEvent line) = None"
      by (simp add: process_line_emits_clears)
    from h have "process_line parse None next_line = ([SSEEvent (infer_event_type d) d], None)"
      by (simp add: process_line_def data_not_event event_type_def)
    with c show ?thesis by (cases "process_line parse currentEvent line") simp
  qed
  show "process_lines parse currentEvent (before @ lines) = process_lines parse currentEvent before"
    if "\<forall>l \<in> set lines. \<not> startsWith l ''data: ''"
    using that by (simp add: process_lines_append process_lines_no_data)
  show "parse_stream parse (chunks @ [c]) = parse_stream parse chunks"
    if "\<forall>l \<in> set (butlast (split_nl (residual [] chunks @ c))). \<not> startsWith l ''data: ''"
    using that read_loop_append [of parse "[]" chunks "[Value c]"]
      read_loop_append [of parse "[]" chunks "[]"]
    by (simp add: parse_stream_def Let_def process_lines_no_data)
qed

theorem label_cleared_after_emission_witness:
  \<open>fst (process_line parse_table (Some ''done'') ''data: {"finalSql":"SELECT 2;"}'') \<noteq> []
   \<and> snd (process_line parse_table (Some ''done'') ''data: {"finalSql":"SELECT 2;"}'') = None
   \<and> process_lines parse_table (Some ''done'')
        [''data: {"finalSql":"SELECT 2;"}'', ''data: {"sql":"SELECT 1;"}'']
      = fst (process_line parse_table (Some ''done'') ''data: {"finalSql":"SELECT 2;"}'')
        @ [SSEEvent (infer_event_type (JObj [(''sql'', JStr ''SELECT 1;'')]))
             (JObj [(''sql'', JStr ''SELECT 1;'')])]
   \<and> process_lines parse_table (Some ''done'') ([] @ [''event: sql''])
      = process_lines parse_table (Some ''done'') []
   \<and> parse_stream parse_table ([] @ [''event: sql'' @ [CHR 0x0A]]) = parse_stream parse_table []\<close>
proof -
  let ?l = \<open>''data: {"finalSql":"SELECT 2;"}''\<close>
  let ?n = \<open>''data: {"sql":"SELECT 1;"}''\<close>
  let ?d = "JObj [(''sql'', JStr ''SELECT 1;'')]"
  have h1: "fst (process_line parse_table (Some ''done'') ?l) \<noteq> []"
    by code_simp
  have h2: "fst (process_line parse_table (Some ''done'') ?l) \<noteq> [] \<and> startsWith ?n ''data: ''
        \<and> trim (drop 6 ?n) \<noteq> [] \<and> parse_table (trim (drop 6 ?n)) = Some ?d \<and> ?d \<noteq> JNull"
    by code_simp
  have h3: "\<forall>l \<in> set [''event: sql'']. \<not> startsWith l ''data: ''"
    by (simp add: startsWith_def)
  have h4: "\<forall>l \<in> set (butlast (split_nl (residual [] [] @ (''event: sql'' @ [CHR 0x0A])))).
              \<not> startsWith l ''data: ''"
    by (simp add: startsWith_def)
  note t = label_cleared_after_emission [where parse = parse_table
      and currentEvent = "Some ''done''" and line = ?l and next_line = ?n and d = ?d
      and lines = "[''event: sql'']" and before = "[]" and chunks = "[]"
      and c = "''event: sql'' @ [CHR 0x0A]"]
  have c1: "snd (process_line parse_table (Some ''done'') ?l) = None"
    using t [THEN conjunct1, THEN mp, OF h1] .
  have c2: "process_lines parse_table (Some ''done'') [?l, ?n]
      = fst (process_line parse_table (Some ''done'') ?l) @ [SSEEvent (infer_event_type ?d) ?d]"
    using t [THEN conjunct2, THEN conjunct1, THEN mp, OF h2] .
  have c3: "process_lines parse_table (Some ''done'') ([] @ [''event: sql''])
      = process_lines parse_table (Some ''done'') []"
    using t [THEN conjunct2, THEN conjunct2, THEN conjunct1, THEN mp, OF h3] .
  have c4: "parse_stream parse_table ([] @ [''event: sql'' @ [CHR 0x0A]]) = parse_stream parse_table []"
    using t [THEN conjunct2, THEN conjunct2, THEN conjunct2, THEN mp, OF h4] .
  show ?thesis by (intro conjI h1 c1 c2 c3 c4)
qed

text \<open>
  Claim C2 fails as stated: the tests on \<^verbatim>\<open>message\<close>, \<^verbatim>\<open>textDelta\<close>, \<^verbatim>\<open>name\<close>,
  \<^verbatim>\<open>status\<close> and \<^verbatim>\<open>newChatId\<close> are tests of truthiness, not of presence. The payload
  \<^verbatim>\<open>{"message":""}\<close> has a \<^verbatim>\<open>message\<close> field and no \<^verbatim>\<open>textDelta\<close> field, and is tagged
  \<^verbatim>\<open>delta\<close>, where the precedence of the claim gives \<^verbatim>\<open>error\<close>.
\<close>

theorem presence_precedence_counterexample:
  \<open>process_line parse_table None ''data: {"message":""}''
     = ([SSEEvent ''delta'' (JObj [(''message'', JStr [])])], None)
   \<and> spec_precedence (JObj [(''message'', JStr [])]) = ''error''\<close>
  by code_simp

text \<open>
  Claim C2, amended. For a \<^verbatim>\<open>data:\<close> line whose payload deserializes to a value other
  than null, with no pending label (null or the empty label), the line emits one event
  and its tag follows this precedence: a \<^verbatim>\<open>finalText\<close> field present gives \<^verbatim>\<open>done\<close>;
  else a truthy \<^verbatim>\<open>message\<close> with \<^verbatim>\<open>textDelta\<close> absent or falsy gives \<^verbatim>\<open>error\<close>; else
  an \<^verbatim>\<open>sql\<close> field present with \<^verbatim>\<open>textDelta\<close> absent gives \<^verbatim>\<open>sql\<close>; else truthy
  \<^verbatim>\<open>name\<close> and \<^verbatim>\<open>status\<close> give \<^verbatim>\<open>tool\<close>; else \<^verbatim>\<open>usedChars\<close> present gives
  \<^verbatim>\<open>context\<close>; else a truthy \<^verbatim>\<open>newChatId\<close> gives \<^verbatim>\<open>chat_rollover\<close>; else \<^verbatim>\<open>delta\<close>.
  When each of the five fields tested for truthiness is truthy if present, this is the
  precedence of the claim. A payload with both \<^verbatim>\<open>finalText\<close> and \<^verbatim>\<open>message\<close> is tagged
  \<^verbatim>\<open>done\<close>.
\<close>

theorem inferred_tag_precedence:
  assumes "startsWith line ''data: ''" and "trim (drop 6 line) \<noteq> []"
    and "parse (trim (drop 6 line)) = Some d" and "d \<noteq> JNull"
    and "currentEvent = None \<or> currentEvent = Some []"
  shows "process_line parse currentEvent line =
      ([SSEEvent
         (if field d ''finalText'' \<noteq> None then ''done''
          else if truthy_opt (field d ''message'') \<and> \<not> truthy_opt (field d ''textDelta'')
            then ''error''
          else if field d ''sql'' \<noteq> None \<and> field d ''textDelta'' = None then ''sql''
          else if truthy_opt (field d ''name'') \<and> truthy_opt (field d ''status'') then ''tool''
          else if field d ''usedChars'' \<noteq> None then ''context''
          else if truthy_opt (field d ''newChatId'') then ''chat_rollover''
          else ''delta'') d], None)
    \<and> ((\<forall>f \<in> set [''message'', ''textDelta'', ''name'', ''status'', ''newChatId''].
           field d f \<noteq> None \<longrightarrow> truthy_opt (field d f))
        \<longrightarrow> process_line parse currentEvent line = ([SSEEvent (spec_precedence d) d], None))
    \<and> (field d ''finalText'' \<noteq> None \<and> field d ''message'' \<noteq> None
        \<longrightarrow> process_line parse currentEvent line = ([SSEEvent ''done'' d], None))"
proof -
  have p: "process_line parse currentEvent line = ([SSEEvent (infer_event_type d) d], None)"
    using assms by (auto simp: process_line_def data_not_event event_type_def)
  show ?thesis
  proof (intro conjI impI)
    show "process_line parse currentEvent line =
      ([SSEEvent
         (if field d ''finalText'' \<noteq> None then ''done''
          else if truthy_opt (field d ''message'') \<and> \<not> truthy_opt (field d ''textDelta'')
            then ''error''
          else if field d ''sql'' \<noteq> None \<and> field d ''textDelta'' = None then ''sql''
          else if truthy_opt (field d ''name'') \<and> truthy_opt (field d ''status'') then ''tool''
          else if field d ''usedChars'' \<noteq> None then ''context''
          else if truthy_opt (field d ''newChatId'') then ''chat_rollover''
          else ''delta'') d], None)"
      unfolding p infer_event_type_def ..
    show "process_line parse currentEvent line = ([SSEEvent (spec_precedence d) d], None)"
      if "\<forall>f \<in> set [''message'', ''textDelta'', ''name'', ''status'', ''newChatId''].
           field d f \<noteq> None \<longrightarrow> truthy_opt (field d f)"
      using that p by (simp only: truthy_fields_agree)
    show "process_line parse currentEvent line = ([SSEEvent ''done'' d], None)"
      if "field d ''finalText'' \<noteq> None \<and> field d ''message'' \<noteq> None"
      using that p by (simp add: infer_event_type_def)
  qed
qed

theorem inferred_tag_precedence_witness:
  \<open>startsWith ''data: {"finalText":"ok","message":"m"}'' ''data: ''
   \<and> trim (drop 6 ''data: {"finalText":"ok","message":"m"}'') \<noteq> []
   \<and> parse_table (trim (drop 6 ''data: {"finalText":"ok","message":"m"}''))
       = Some (JObj [(''finalText'', JStr ''ok''), (''message'', JStr ''m'')])
   \<and> process_line parse_table None ''data: {"finalText":"ok","message":"m"}''
       = ([SSEEvent ''done'' (JObj [(''finalText'', JStr ''ok''), (''message'', JStr ''m'')])], None)
   \<and> process_line parse_table None ''data: {"finalText":"ok","message":"m"}''
       = ([SSEEvent (spec_precedence (JObj [(''finalText'', JStr ''ok''), (''message'', JStr ''m'')]))
            (JObj [(''finalText'', JStr ''ok''), (''message'', JStr ''m'')])], None)\<close>
proof -
  let ?d = "JObj [(''finalText'', JStr ''ok''), (''message'', JStr ''m'')]"
  have h1: \<open>startsWith ''data: {"finalText":"ok","message":"m"}'' ''data: ''\<close>
    by (simp add: startsWith_def)
  have h2: \<open>trim (drop 6 ''data: {"finalText":"ok","message":"m"}'') \<noteq> []\<close>
    by code_simp
  have h3: \<open>parse_table (trim (drop 6 ''data: {"finalText":"ok","message":"m"}'')) = Some ?d\<close>
    by code_simp
  have h4: "?d \<noteq> JNull" by simp
  have h5: "(None :: string option) = None \<or> None = Some []" by simp
  have h6: "\<forall>f \<in> set [''message'', ''textDelta'', ''name'', ''status'', ''newChatId''].
           field ?d f \<noteq> None \<longrightarrow> truthy_opt (field ?d f)"
    by simp
  have h7: "field ?d ''finalText'' \<noteq> None \<and> field ?d ''message'' \<noteq> None" by simp
  note t = inferred_tag_precedence [where parse = parse_table and d = ?d
      and currentEvent = None, OF h1 h2 h3 h4 h5]
  have c1: \<open>process_line parse_table None ''data: {"finalText":"ok","message":"m"}''
       = ([SSEEvent ''done'' ?d], None)\<close>
    using t [THEN conjunct2, THEN conjunct2, THEN mp, OF h7] .
  have c2: \<open>process_line parse_table None ''data: {"finalText":"ok","message":"m"}''
       = ([SSEEvent (spec_precedence ?d) ?d], None)\<close>
    using t [THEN conjunct2, THEN conjunct1, THEN mp, OF h6] .
  show ?thesis by (intro conjI h1 h2 h3 c1 c2)
qed

section \<open>The claims about the generator\<close>

text \<open>
  Claim C5. When \<^verbatim>\<open>fetch\<close> rejects, when the response is not \<^verbatim>\<open>ok\<close> (its status is
  not 2xx), or when it has no body, the generator throws before its loop starts: it
  yields no event, completes with an error, and never acquires the reader.
\<close>

theorem transport_failure_no_events:
  "((\<exists>e. fetched = Inl e)
      \<or> (\<exists>response. fetched = Inr response \<and> (\<not> ok response \<or> body response = None)))
    \<longrightarrow> yielded (streamAgentResponse parse fetched release stop) = []
        \<and> (\<exists>e. outcome (streamAgentResponse parse fetched release stop) = Threw e)
        \<and> releaseLock_calls (streamAgentResponse parse fetched release stop) = 0"
  by (auto simp: streamAgentResponse_def split: sum.splits option.splits)

theorem transport_failure_no_events_witness:
  "(\<exists>response. (Inr \<lparr>ok = False, http_status = 503, body = Some [Value ''data: 1''],
                        json = Inl (SyntaxError [])\<rparr> :: error + response) = Inr response
        \<and> (\<not> ok response \<or> body response = None))
   \<and> yielded (streamAgentResponse parse_table
        (Inr \<lparr>ok = False, http_status = 503, body = Some [Value ''data: 1''],
              json = Inl (SyntaxError [])\<rparr>) None None) = []
   \<and> outcome (streamAgentResponse parse_table
        (Inr \<lparr>ok = False, http_status = 503, body = Some [Value ''data: 1''],
              json = Inl (SyntaxError [])\<rparr>) None None) = Threw (Error ''HTTP error! status: 503'')"
proof -
  let ?r = "\<lparr>ok = False, http_status = 503, body = Some [Value ''data: 1''],
              json = Inl (SyntaxError [])\<rparr>"
  have h: "(\<exists>e. (Inr ?r :: error + response) = Inl e)
      \<or> (\<exists>response. (Inr ?r :: error + response) = Inr response
            \<and> (\<not> ok response \<or> body response = None))"
    by simp
  have h': "\<exists>response. (Inr ?r :: error + response) = Inr response
        \<and> (\<not> ok response \<or> body response = None)"
    by simp
  note t = transport_failure_no_events [where fetched = "Inr ?r" and parse = parse_table
      and release = None and stop = None, THEN mp, OF h]
  have c1: "yielded (streamAgentResponse parse_table (Inr ?r) None None) = []"
    using t by (rule conjunct1)
  have c2: "outcome (streamAgentResponse parse_table (Inr ?r) None None)
            = Threw (Error ''HTTP error! status: 503'')"
    by (simp add: streamAgentResponse_def) code_simp
  show ?thesis by (intro conjI h' c1 c2)
qed

text \<open>
  Claim C4 fails in its second half: the \<^verbatim>\<open>finally\<close> block calls \<^verbatim>\<open>releaseLock\<close> with
  no handler around it. On a stream that ends normally, an error thrown by the release
  is the completion of the generator.
\<close>

theorem release_error_propagates_counterexample:
  "outcome (streamAgentResponse parse_table
      (Inr \<lparr>ok = True, http_status = 200, body = Some [], json = Inl (SyntaxError [])\<rparr>)
      (Some (TypeError ''release failed'')) None)
   = Threw (TypeError ''release failed'')"
  by (simp add: streamAgentResponse_def finally_releaseLock_def)

text \<open>
  Claim C4, amended. Once the reader is acquired, \<^verbatim>\<open>releaseLock\<close> is called exactly once
  on every exit of the loop: the normal end of the stream, a read that throws, and a
  consumer that leaves early. When the release succeeds the generator completes as its
  loop did (or returns, when the consumer left); an error thrown by the release is not
  swallowed and becomes the completion of the generator.
\<close>

theorem releaseLock_on_every_exit:
  assumes "fetched = Inr response" and "ok response" and "body response = Some reads"
  shows "releaseLock_calls (streamAgentResponse parse fetched release stop) = 1
    \<and> (release = None \<longrightarrow>
         outcome (streamAgentResponse parse fetched release stop)
         = (case stop of
              None \<Rightarrow> snd (read_loop parse [] reads)
            | Some k \<Rightarrow> if k < length (fst (read_loop parse [] reads)) then Returned
                        else snd (read_loop parse [] reads)))
    \<and> (\<forall>e. release = Some e \<longrightarrow>
         outcome (streamAgentResponse parse fetched release stop) = Threw e)"
  using assms
  by (auto simp: streamAgentResponse_def finally_releaseLock_def split: prod.splits option.splits)

theorem releaseLock_on_every_exit_witness:
  "ok \<lparr>ok = True, http_status = 200, body = Some [ReadFailed (Error ''reset'')],
        json = Inl (SyntaxError [])\<rparr>
   \<and> releaseLock_calls (streamAgentResponse parse_table
        (Inr \<lparr>ok = True, http_status = 200, body = Some [ReadFailed (Error ''reset'')],
              json = Inl (SyntaxError [])\<rparr>) None (Some 0)) = 1
   \<and> outcome (streamAgentResponse parse_table
        (Inr \<lparr>ok = True, http_status = 200, body = Some [ReadFailed (Error ''reset'')],
              json = Inl (SyntaxError [])\<rparr>) None (Some 0)) = Threw (Error ''reset'')"
proof -
  let ?r = "\<lparr>ok = True, http_status = 200, body = Some [ReadFailed (Error ''reset'')],
              json = Inl (SyntaxError [])\<rparr>"
  have h1: "(Inr ?r :: error + response) = Inr ?r" by simp
  have h2: "ok ?r" by simp
  have h3: "body ?r = Some [ReadFailed (Error ''reset'')]" by simp
  note t = releaseLock_on_every_exit [where parse = parse_table and release = None
      and stop = "Some 0", OF h1 h2 h3]
  have c1: "releaseLock_calls (streamAgentResponse parse_table (Inr ?r) None (Some 0)) = 1"
    using t by (rule conjunct1)
  have "outcome (streamAgentResponse parse_table (Inr ?r) None (Some 0))
        = (case Some (0::nat) of
              None \<Rightarrow> snd (read_loop parse_table [] [ReadFailed (Error ''reset'')])
            | Some k \<Rightarrow> if k < length (fst (read_loop parse_table [] [ReadFailed (Error ''reset'')]))
                        then Returned
                        else snd (read_loop parse_table [] [ReadFailed (Error ''reset'')]))"
    using t [THEN conjunct2, THEN conjunct1, THEN mp] by simp
  then have c2: "outcome (streamAgentResponse parse_table (Inr ?r) None (Some 0))
                 = Threw (Error ''reset'')"
    by simp
  show ?thesis by (intro conjI h2 c1 c2)
qed

section \<open>The claims about the consumer\<close>

text \<open>
  Claim C9. On a \<^verbatim>\<open>delta\<close> event whose \<^verbatim>\<open>fullText\<close> is a string, with a transcript
  that is not empty: if the trimmed text or the text accumulated so far is non-empty,
  the text of the last message becomes the trimmed \<^verbatim>\<open>fullText\<close> (and so does the
  accumulated text); if both are empty the state is unchanged.
\<close>

theorem delta_replaces_text:
  assumes "messages s \<noteq> []" and "field d ''fullText'' = Some (JStr fullText)"
  shows "on_event format now (SSEEvent ''delta'' d) s =
     Inr (if trim fullText \<noteq> [] \<or> lastFullText s \<noteq> []
          then s\<lparr>lastFullText := trim fullText,
                 messages := butlast (messages s) @ [(last (messages s))\<lparr>m_text := JStr (trim fullText)\<rparr>]\<rparr>
          else s)"
proof -
  from assms(2) have "d \<noteq> JNull" by auto
  with assms show ?thesis
    by (simp add: on_event_def delta_update_def set_last_text_def Let_def)
qed

theorem delta_replaces_text_witness:
  "messages \<lparr>messages = [\<lparr>m_role = User, m_text = JStr ''hello''\<rparr>, \<lparr>m_role = Model, m_text = JStr []\<rparr>],
             activeTools = [], timeouts = [], sql = JStr [], contextUsage = None,
             currentChatId = Some (JStr ''c1''), lastFullText = []\<rparr> \<noteq> []
   \<and> on_event (\<lambda>q. None) 0 (SSEEvent ''delta'' (JObj [(''fullText'', JStr '' hi '')]))
        \<lparr>messages = [\<lparr>m_role = User, m_text = JStr ''hello''\<rparr>, \<lparr>m_role = Model, m_text = JStr []\<rparr>],
         activeTools = [], timeouts = [], sql = JStr [], contextUsage = None,
         currentChatId = Some (JStr ''c1''), lastFullText = []\<rparr>
      = Inr \<lparr>messages = [\<lparr>m_role = User, m_text = JStr ''hello''\<rparr>, \<lparr>m_role = Model, m_text = JStr ''hi''\<rparr>],
             activeTools = [], timeouts = [], sql = JStr [], contextUsage = None,
             currentChatId = Some (JStr ''c1''), lastFullText = ''hi''\<rparr>
   \<and> on_event (\<lambda>q. None) 0 (SSEEvent ''delta'' (JObj [(''fullText'', JStr ''  '')]))
        \<lparr>messages = [\<lparr>m_role = User, m_text = JStr ''hello''\<rparr>, \<lparr>m_role = Model, m_text = JStr []\<rparr>],
         activeTools = [], timeouts = [], sql = JStr [], contextUsage = None,
         currentChatId = Some (JStr ''c1''), lastFullText = []\<rparr>
      = Inr \<lparr>messages = [\<lparr>m_role = User, m_text = JStr ''hello''\<rparr>, \<lparr>m_role = Model, m_text = JStr []\<rparr>],
             activeTools = [], timeouts = [], sql = JStr [], contextUsage = None,
             currentChatId = Some (JStr ''c1''), lastFullText = []\<rparr>"
proof -
  let ?s = "\<lparr>messages = [\<lparr>m_role = User, m_text = JStr ''hello''\<rparr>, \<lparr>m_role = Model, m_text = JStr []\<rparr>],
             activeTools = [], timeouts = [], sql = JStr [], contextUsage = None,
             currentChatId = Some (JStr ''c1''), lastFullText = []\<rparr>"
  have h1: "messages ?s \<noteq> []" by simp
  have h2: "field (JObj [(''fullText'', JStr '' hi '')]) ''fullText'' = Some (JStr '' hi '')" by simp
  have h3: "field (JObj [(''fullText'', JStr ''  '')]) ''fullText'' = Some (JStr ''  '')" by simp
  have t1: "trim '' hi '' = ''hi''" by code_simp
  have t2: "trim ''  '' = []" by code_simp
  have c1: "on_event (\<lambda>q. None) 0 (SSEEvent ''delta'' (JObj [(''fullText'', JStr '' hi '')])) ?s
      = Inr \<lparr>messages = [\<lparr>m_role = User, m_text = JStr ''hello''\<rparr>, \<lparr>m_role = Model, m_text = JStr ''hi''\<rparr>],
             activeTools = [], timeouts = [], sql = JStr [], contextUsage = None,
             currentChatId = Some (JStr ''c1''), lastFullText = ''hi''\<rparr>"
    using delta_replaces_text [where format = "\<lambda>q. None" and now = 0, OF h1 h2] by (simp add: t1)
  have c2: "on_event (\<lambda>q. None) 0 (SSEEvent ''delta'' (JObj [(''fullText'', JStr ''  '')])) ?s = Inr ?s"
    using delta_replaces_text [where format = "\<lambda>q. None" and now = 0, OF h1 h3] by (simp add: t2)
  show ?thesis by (intro conjI h1 c1 c2)
qed

text \<open>
  Claim C8, evaluated at a failing input. Two tool events arrive in the same
  millisecond: \<^verbatim>\<open>create_table\<close> with status \<^verbatim>\<open>done\<close>, then \<^verbatim>\<open>add_index\<close> with status
  \<^verbatim>\<open>start\<close>. Both entries are shown and one removal is pending. The callback filters on
  the timestamp, so when it runs it removes the \<^verbatim>\<open>start\<close> entry of \<^verbatim>\<open>add_index\<close> as
  well, which nothing has replaced.
\<close>

theorem start_entry_removed_by_other_timeout:
  "consume (\<lambda>q. None)
      [(1000, SSEEvent ''tool'' (JObj [(''name'', JStr ''create_table''), (''status'', JStr ''done'')])),
       (1000, SSEEvent ''tool'' (JObj [(''name'', JStr ''add_index''), (''status'', JStr ''start'')]))]
      \<lparr>messages = [\<lparr>m_role = Model, m_text = JStr []\<rparr>], activeTools = [], timeouts = [],
       sql = JStr [], contextUsage = None, currentChatId = Some (JStr ''c1''), lastFullText = []\<rparr>
     = Inr \<lparr>messages = [\<lparr>m_role = Model, m_text = JStr []\<rparr>],
            activeTools =
              [\<lparr>name = JStr ''create_table'', status = JStr ''done'', timestamp = 1000\<rparr>,
               \<lparr>name = JStr ''add_index'', status = JStr ''start'', timestamp = 1000\<rparr>],
            timeouts = [(2000, 1000)],
            sql = JStr [], contextUsage = None, currentChatId = Some (JStr ''c1''),
            lastFullText = []\<rparr>
   \<and> activeTools (timeout_fires (2000, 1000)
        \<lparr>messages = [\<lparr>m_role = Model, m_text = JStr []\<rparr>],
         activeTools =
           [\<lparr>name = JStr ''create_table'', status = JStr ''done'', timestamp = 1000\<rparr>,
            \<lparr>name = JStr ''add_index'', status = JStr ''start'', timestamp = 1000\<rparr>],
         timeouts = [(2000, 1000)],
         sql = JStr [], contextUsage = None, currentChatId = Some (JStr ''c1''),
         lastFullText = []\<rparr>)
     = []"
  by (simp add: on_event_def tool_update_def timeout_fires_def Let_def)

text \<open>
  The other part of the claim holds: with tool names that are strings, neither an
  update nor a removal ever leaves two entries with one name.
\<close>

lemma tool_update_one_entry_per_name:
  assumes "distinct (map name (activeTools s))"
  shows "distinct (map name (activeTools (tool_update now (JStr n) st s)))"
proof -
  have eq: "strict_eq x (JStr n) = (x = JStr n)" for x
    by (cases x) auto
  have "JStr n \<notin> set (map name (filter (\<lambda>t. name t \<noteq> JStr n) (activeTools s)))"
    by auto
  moreover have "distinct (map name (filter (\<lambda>t. name t \<noteq> JStr n) (activeTools s)))"
    using assms by (rule distinct_map_filter)
  ultimately show ?thesis
    by (simp add: tool_update_def Let_def eq)
qed

lemma timeout_fires_one_entry_per_name:
  "distinct (map name (activeTools s)) \<Longrightarrow> distinct (map name (activeTools (timeout_fires cb s)))"
  by (simp add: timeout_fires_def distinct_map_filter)

section \<open>The claim about \<^verbatim>\<open>executeSql\<close>\<close>

text \<open>
  Claim C10 fails as stated: the promise never rejects, but what it resolves to need not
  be an \<^verbatim>\<open>ExecutionResult\<close>. Line 281 returns the decoded body of a 2xx response
  unchecked, so a body \<^verbatim>\<open>null\<close> resolves to null; and for a response that is not 2xx
  line 276 takes \<^verbatim>\<open>data.detail\<close> as the message whatever its type, so a \<^verbatim>\<open>detail\<close> that
  is an array gives a result whose \<^verbatim>\<open>message\<close> is not a string.
\<close>

theorem executeSql_unchecked_body_counterexample:
  "settled (executeSql ''http://localhost:8005'' None
       (\<lambda>r. Inr \<lparr>ok = True, http_status = 200, body = None, json = Inr JNull\<rparr>)
       \<lparr>projectRef = ''ref'', accessToken = ''token''\<rparr> ''SELECT 1;'')
     = Inr JNull
   \<and> \<not> is_ExecutionResult JNull
   \<and> settled (executeSql ''http://localhost:8005'' None
       (\<lambda>r. Inr \<lparr>ok = False, http_status = 422, body = None,
                   json = Inr (JObj [(''detail'', JArr [JStr ''bad''])])\<rparr>)
       \<lparr>projectRef = ''ref'', accessToken = ''token''\<rparr> ''SELECT 1;'')
     = Inr (JObj [(''success'', JBool False), (''message'', JArr [JStr ''bad'']),
                  (''data'', JObj [(''detail'', JArr [JStr ''bad''])])])
   \<and> \<not> is_ExecutionResult
         (JObj [(''success'', JBool False), (''message'', JArr [JStr ''bad'']),
                (''data'', JObj [(''detail'', JArr [JStr ''bad''])])])"
  by (simp add: executeSql_def reply_result_def execution_result_def failure_message_def
      is_ExecutionResult_def Let_def)

text \<open>
  Claim C10, amended. The promise of \<^verbatim>\<open>executeSql\<close> never rejects. With an empty project
  reference or access token it resolves to the failure result with the message
  "Supabase Project Ref or Access Token is missing." and issues no request. Otherwise
  it issues one request. An error of \<^verbatim>\<open>fetch\<close> or of \<^verbatim>\<open>response.json()\<close> is turned into
  an \<^verbatim>\<open>ExecutionResult\<close> with \<^verbatim>\<open>success\<close> false and a non-empty message, and so is a
  response that is not \<^verbatim>\<open>ok\<close> with the body null. A response that is not \<^verbatim>\<open>ok\<close> with
  another body gives an object with \<^verbatim>\<open>success\<close> false, the body as \<^verbatim>\<open>data\<close>, and as
  \<^verbatim>\<open>message\<close> the value of \<^verbatim>\<open>data.detail || data.message || `Error ${status}`\<close>: an
  \<^verbatim>\<open>ExecutionResult\<close> exactly when that value is a string. The decoded body of an \<^verbatim>\<open>ok\<close>
  response is returned as it is, an \<^verbatim>\<open>ExecutionResult\<close> or not. In every other case the
  value resolved to is an \<^verbatim>\<open>ExecutionResult\<close>.
\<close>

theorem executeSql_resolves:
  "(\<exists>r. settled (executeSql backend_url authToken fetch config query) = Inr r)
   \<and> (projectRef config = [] \<or> accessToken config = [] \<longrightarrow>
        executeSql backend_url authToken fetch config query
        = \<lparr>requests = [],
           settled = Inr (JObj [(''success'', JBool False),
                                (''message'', JStr ''Supabase Project Ref or Access Token is missing.'')])\<rparr>)
   \<and> (projectRef config \<noteq> [] \<and> accessToken config \<noteq> [] \<longrightarrow>
        requests (executeSql backend_url authToken fetch config query)
          = [sql_request backend_url authToken config query]
        \<and> (\<forall>e. fetch (sql_request backend_url authToken config query) = Inl e \<longrightarrow>
              settled (executeSql backend_url authToken fetch config query) = Inr (caught e))
        \<and> (\<forall>response e. fetch (sql_request backend_url authToken config query) = Inr response
                \<and> json response = Inl e \<longrightarrow>
              settled (executeSql backend_url authToken fetch config query) = Inr (caught e))
        \<and> (\<forall>response d. fetch (sql_request backend_url authToken config query) = Inr response
                \<and> json response = Inr d \<and> \<not> ok response \<longrightarrow>
              (\<exists>r. settled (executeSql backend_url authToken fetch config query) = Inr r
                   \<and> field r ''success'' = Some (JBool False)))
        \<and> (\<forall>response d. fetch (sql_request backend_url authToken config query) = Inr response
                \<and> json response = Inr d \<and> ok response \<longrightarrow>
              settled (executeSql backend_url authToken fetch config query) = Inr d))
   \<and> field (caught e) ''success'' = Some (JBool False)
   \<and> (\<exists>m. m \<noteq> [] \<and> field (caught e) ''message'' = Some (JStr m))
   \<and> is_ExecutionResult (caught e)
   \<and> (projectRef config \<noteq> [] \<and> accessToken config \<noteq> [] \<longrightarrow>
        (\<forall>response. fetch (sql_request backend_url authToken config query) = Inr response
                \<and> json response = Inr JNull \<and> \<not> ok response \<longrightarrow>
              settled (executeSql backend_url authToken fetch config query) = Inr (caught null_read))
        \<and> (\<forall>response d. fetch (sql_request backend_url authToken config query) = Inr response
                \<and> json response = Inr d \<and> \<not> ok response \<and> d \<noteq> JNull \<longrightarrow>
              settled (executeSql backend_url authToken fetch config query)
                = Inr (execution_result False (failure_message response d) (Some d))
              \<and> is_ExecutionResult (execution_result False (failure_message response d) (Some d))
                = (\<exists>m. failure_message response d = JStr m)))
   \<and> (\<exists>r. settled (executeSql backend_url authToken fetch config query) = Inr r
        \<and> (is_ExecutionResult r
            \<or> (\<exists>response d. fetch (sql_request backend_url authToken config query) = Inr response
                  \<and> json response = Inr d
                  \<and> (if ok response then r = d
                      else d \<noteq> JNull
                           \<and> r = execution_result False (failure_message response d) (Some d)))))"
proof -
  have c: "is_ExecutionResult (caught x)" for x
    by (simp add: caught_def execution_result_def is_ExecutionResult_def)
  have m: "is_ExecutionResult (execution_result False v (Some d)) = (\<exists>m. v = JStr m)" for v d
    by (cases v) (simp_all add: execution_result_def is_ExecutionResult_def)
  have g: "is_ExecutionResult (execution_result False (JStr t) None)" for t
    by (simp add: execution_result_def is_ExecutionResult_def)
  have 1: "(\<exists>r. settled (executeSql backend_url authToken fetch config query) = Inr r)
   \<and> (projectRef config = [] \<or> accessToken config = [] \<longrightarrow>
        executeSql backend_url authToken fetch config query
        = \<lparr>requests = [],
           settled = Inr (JObj [(''success'', JBool False),
                                (''message'', JStr ''Supabase Project Ref or Access Token is missing.'')])\<rparr>)
   \<and> (projectRef config \<noteq> [] \<and> accessToken config \<noteq> [] \<longrightarrow>
        requests (executeSql backend_url authToken fetch config query)
          = [sql_request backend_url authToken config query]
        \<and> (\<forall>e. fetch (sql_request backend_url authToken config query) = Inl e \<longrightarrow>
              settled (executeSql backend_url authToken fetch config query) = Inr (caught e))
        \<and> (\<forall>response e. fetch (sql_request backend_url authToken config query) = Inr response
                \<and> json response = Inl e \<longrightarrow>
              settled (executeSql backend_url authToken fetch config query) = Inr (caught e))
        \<and> (\<forall>response d. fetch (sql_request backend_url authToken config query) = Inr response
                \<and> json response = Inr d \<and> \<not> ok response \<longrightarrow>
              (\<exists>r. settled (executeSql backend_url authToken fetch config query) = Inr r
                   \<and> field r ''success'' = Some (JBool False)))
        \<and> (\<forall>response d. fetch (sql_request backend_url authToken config query) = Inr response
                \<and> json response = Inr d \<and> ok response \<longrightarrow>
              settled (executeSql backend_url authToken fetch config query) = Inr d))
   \<and> field (caught e) ''success'' = Some (JBool False)
   \<and> (\<exists>m. m \<noteq> [] \<and> field (caught e) ''message'' = Some (JStr m))"
    by (auto simp: executeSql_def execution_result_def caught_def reply_result_def Let_def
        split: sum.splits)
  have 2: "projectRef config \<noteq> [] \<and> accessToken config \<noteq> [] \<longrightarrow>
        (\<forall>response. fetch (sql_request backend_url authToken config query) = Inr response
                \<and> json response = Inr JNull \<and> \<not> ok response \<longrightarrow>
              settled (executeSql backend_url authToken fetch config query) = Inr (caught null_read))
        \<and> (\<forall>response d. fetch (sql_request backend_url authToken config query) = Inr response
                \<and> json response = Inr d \<and> \<not> ok response \<and> d \<noteq> JNull \<longrightarrow>
              settled (executeSql backend_url authToken fetch config query)
                = Inr (execution_result False (failure_message response d) (Some d))
              \<and> is_ExecutionResult (execution_result False (failure_message response d) (Some d))
                = (\<exists>m. failure_message response d = JStr m))"
    by (auto simp: executeSql_def reply_result_def Let_def m)
  have 3: "\<exists>r. settled (executeSql backend_url authToken fetch config query) = Inr r
        \<and> (is_ExecutionResult r
            \<or> (\<exists>response d. fetch (sql_request backend_url authToken config query) = Inr response
                  \<and> json response = Inr d
                  \<and> (if ok response then r = d
                      else d \<noteq> JNull
                           \<and> r = execution_result False (failure_message response d) (Some d))))"
  proof (cases "projectRef config = [] \<or> accessToken config = []")
    case True
    then show ?thesis by (auto simp: executeSql_def g)
  next
    case False
    show ?thesis
    proof (cases "fetch (sql_request backend_url authToken config query)")
      case (Inl x)
      with False show ?thesis by (simp add: executeSql_def Let_def c)
    next
      case (Inr response)
      show ?thesis
      proof (cases "json response")
        case (Inl x)
        with False Inr show ?thesis by (simp add: executeSql_def Let_def c)
      next
        case d: (Inr d)
        show ?thesis
        proof (cases "ok response")
          case True
          with False Inr d show ?thesis
            by (simp add: executeSql_def Let_def reply_result_def)
        next
          case nok: False
          show ?thesis
          proof (cases "d = JNull")
            case True
            with False Inr d nok show ?thesis
              by (simp add: executeSql_def Let_def reply_result_def c)
          next
            case False
            with \<open>\<not> (projectRef config = [] \<or> accessToken config = [])\<close> Inr d nok
            show ?thesis
              by (simp add: executeSql_def Let_def reply_result_def)
          qed
        qed
      qed
    qed
  qed
  from 1 c [of e] 2 3 show ?thesis by (intro conjI) blast+
qed

theorem executeSql_resolves_witness:
  "(projectRef \<lparr>projectRef = [], accessToken = ''token''\<rparr> = []
      \<or> accessToken \<lparr>projectRef = [], accessToken = ''token''\<rparr> = [])
   \<and> executeSql ''http://localhost:8005'' None (\<lambda>r. Inl (TypeError ''Failed to fetch''))
        \<lparr>projectRef = [], accessToken = ''token''\<rparr> ''SELECT 1;''
      = \<lparr>requests = [],
         settled = Inr (JObj [(''success'', JBool False),
                              (''message'', JStr ''Supabase Project Ref or Access Token is missing.'')])\<rparr>
   \<and> (projectRef \<lparr>projectRef = ''ref'', accessToken = ''token''\<rparr> \<noteq> []
      \<and> accessToken \<lparr>projectRef = ''ref'', accessToken = ''token''\<rparr> \<noteq> [])
   \<and> settled (executeSql ''http://localhost:8005'' None (\<lambda>r. Inl (TypeError ''Failed to fetch''))
        \<lparr>projectRef = ''ref'', accessToken = ''token''\<rparr> ''SELECT 1;'')
      = Inr (JObj [(''success'', JBool False), (''message'', JStr ''Failed to fetch'')])
   \<and> settled (executeSql ''http://localhost:8005'' None
        (\<lambda>r. Inr \<lparr>ok = False, http_status = 500, body = None,
                    json = Inr (JObj [(''detail'', JStr ''boom'')])\<rparr>)
        \<lparr>projectRef = ''ref'', accessToken = ''token''\<rparr> ''SELECT 1;'')
      = Inr (JObj [(''success'', JBool False), (''message'', JStr ''boom''),
                   (''data'', JObj [(''detail'', JStr ''boom'')])])
   \<and> is_ExecutionResult
        (JObj [(''success'', JBool False), (''message'', JStr ''boom''),
               (''data'', JObj [(''detail'', JStr ''boom'')])])"
proof -
  let ?f = "\<lambda>r :: request. (Inl (TypeError ''Failed to fetch'') :: error + response)"
  let ?d = "JObj [(''detail'', JStr ''boom'')]"
  let ?resp = "\<lparr>ok = False, http_status = 500, body = None, json = Inr ?d\<rparr>"
  let ?g = "\<lambda>r :: request. (Inr ?resp :: error + response)"
  let ?c0 = "\<lparr>projectRef = [], accessToken = ''token''\<rparr>"
  let ?c1 = "\<lparr>projectRef = ''ref'', accessToken = ''token''\<rparr>"
  have h0: "projectRef ?c0 = [] \<or> accessToken ?c0 = []" by simp
  have h1: "projectRef ?c1 \<noteq> [] \<and> accessToken ?c1 \<noteq> []" by simp
  have h2: "?f (sql_request ''http://localhost:8005'' None ?c1 ''SELECT 1;'')
            = Inl (TypeError ''Failed to fetch'')" by simp
  have h3: "?g (sql_request ''http://localhost:8005'' None ?c1 ''SELECT 1;'') = Inr ?resp
            \<and> json ?resp = Inr ?d \<and> \<not> ok ?resp \<and> ?d \<noteq> JNull" by simp
  have fm: "failure_message ?resp ?d = JStr ''boom''"
    by (simp add: failure_message_def)
  note t0 = executeSql_resolves [where backend_url = "''http://localhost:8005''"
      and authToken = None and fetch = ?f and config = ?c0 and query = "''SELECT 1;''"]
  note t1 = executeSql_resolves [where backend_url = "''http://localhost:8005''"
      and authToken = None and fetch = ?f and config = ?c1 and query = "''SELECT 1;''"]
  note t2 = executeSql_resolves [where backend_url = "''http://localhost:8005''"
      and authToken = None and fetch = ?g and config = ?c1 and query = "''SELECT 1;''"]
  have c0: "executeSql ''http://localhost:8005'' None ?f ?c0 ''SELECT 1;''
      = \<lparr>requests = [],
         settled = Inr (JObj [(''success'', JBool False),
                              (''message'', JStr ''Supabase Project Ref or Access Token is missing.'')])\<rparr>"
    using t0 [THEN conjunct2, THEN conjunct1, THEN mp, OF h0] .
  have "settled (executeSql ''http://localhost:8005'' None ?f ?c1 ''SELECT 1;'')
        = Inr (caught (TypeError ''Failed to fetch''))"
    using t1 [THEN conjunct2, THEN conjunct2, THEN conjunct1, THEN mp, OF h1,
              THEN conjunct2, THEN conjunct1, THEN spec, THEN mp, OF h2] .
  then have c1: "settled (executeSql ''http://localhost:8005'' None ?f ?c1 ''SELECT 1;'')
      = Inr (JObj [(''success'', JBool False), (''message'', JStr ''Failed to fetch'')])"
    by (simp add: caught_def execution_result_def)
  note n = t2 [THEN conjunct2, THEN conjunct2, THEN conjunct2, THEN conjunct2, THEN conjunct2,
               THEN conjunct2, THEN conjunct1, THEN mp, OF h1,
               THEN conjunct2, THEN spec, THEN spec, THEN mp, OF h3]
  have c2: "settled (executeSql ''http://localhost:8005'' None ?g ?c1 ''SELECT 1;'')
      = Inr (JObj [(''success'', JBool False), (''message'', JStr ''boom''), (''data'', ?d)])"
    using n [THEN conjunct1] by (simp add: fm execution_result_def)
  have c3: "is_ExecutionResult
        (JObj [(''success'', JBool False), (''message'', JStr ''boom''), (''data'', ?d)])"
    using n [THEN conjunct2] by (simp add: fm execution_result_def)
  show ?thesis by (intro conjI h0 c0 h1 c1 c2 c3)
qed

end
